theory Spec2Isabelle
  imports Main
begin

section \<open>The libedit shim (Sources/CLibEdit/libedit_shim.c)\<close>

text \<open>
  The shim is a set of C functions that forward to libedit's readline-compatible API.
  libedit and the C library are not part of the repository, so every function of theirs
  that the shim calls is a field of the record \<open>library\<close>: the shim's functions take
  that record as a parameter, and what is proved of them for an arbitrary record holds
  whatever the library does.
\<close>

subsection \<open>C data\<close>

text \<open>
  A \<^verbatim>\<open>const char *\<close> is \<open>None\<close> (the NULL pointer) or \<open>Some s\<close>, where \<open>s\<close> holds the
  bytes in front of the terminating NUL. Reading through the pointer (\<^verbatim>\<open>*line\<close>) faults
  on NULL.
\<close>

type_synonym cstring = "string option"

datatype fault = NullDereference

fun deref :: "cstring \<Rightarrow> fault + string" where
  "deref None = Inl NullDereference"
| "deref (Some s) = Inr s"

text \<open>
  \<^verbatim>\<open>typedef char *(*le_generator_t)(const char *text, int state);\<close>
  A generator is a C function, so it may read and write the application's own state
  \<open>'u\<close>; it returns a match or NULL.
\<close>

type_synonym 'u le_generator_t = "cstring \<Rightarrow> int \<Rightarrow> 'u \<Rightarrow> cstring \<times> 'u"

text \<open>
  \<^verbatim>\<open>rl_attempted_completion_function\<close> holds NULL or a pointer to a completion function;
  the only function the shim ever stores there is its own \<^verbatim>\<open>attempted_completion\<close>.
\<close>

datatype completion_func = Attempted_completion

subsection \<open>The state\<close>

text \<open>
  \<open>s_generator\<close> is the shim's static variable, \<open>rl_attempted_completion_function\<close> the
  library's global that \<^verbatim>\<open>le_set_completion\<close> assigns, \<open>lib\<close> everything else outside
  the shim (libedit's state, the terminal, the files, \<^verbatim>\<open>stdout\<close>) and \<open>app\<close> the state
  of the application that the generator works on.
\<close>

record ('l, 'u) world =
  s_generator :: "'u le_generator_t option"
  rl_attempted_completion_function :: "completion_func option"
  lib :: 'l
  app :: 'u

text \<open>The statics at program start: \<^verbatim>\<open>static le_generator_t s_generator = NULL;\<close>\<close>

definition initial_world :: "'l \<Rightarrow> 'u \<Rightarrow> ('l, 'u) world" where
  "initial_world l u =
     \<lparr>s_generator = None, rl_attempted_completion_function = None, lib = l, app = u\<rparr>"

subsection \<open>The external functions the shim calls\<close>

text \<open>
  Each field is one function of libedit or of the C library, as a function on the outside
  state \<open>'l\<close> that returns the C result with the new state. \<open>rl_completion_matches\<close>
  takes the entry function (a callback on the whole state) and may never return, when
  the callback never answers NULL: its result is an \<open>option\<close>.
\<close>

record ('l, 'u) library =
  readline :: "cstring \<Rightarrow> 'l \<Rightarrow> cstring \<times> 'l"
  add_history :: "string \<Rightarrow> 'l \<Rightarrow> int \<times> 'l"
  read_history :: "cstring \<Rightarrow> 'l \<Rightarrow> int \<times> 'l"
  write_history :: "cstring \<Rightarrow> 'l \<Rightarrow> int \<times> 'l"
  clear_history :: "'l \<Rightarrow> 'l"
  rl_initialize :: "'l \<Rightarrow> int \<times> 'l"
  rl_ding :: "'l \<Rightarrow> int \<times> 'l"
  fputc :: "char \<Rightarrow> 'l \<Rightarrow> int \<times> 'l"
  fflush :: "'l \<Rightarrow> int \<times> 'l"
  rl_completion_matches ::
    "cstring \<Rightarrow> (cstring \<Rightarrow> int \<Rightarrow> ('l, 'u) world \<Rightarrow> cstring \<times> ('l, 'u) world)
       \<Rightarrow> ('l, 'u) world \<Rightarrow> (string list option \<times> ('l, 'u) world) option"

text \<open>A call of an external function from the shim: only the outside state changes.\<close>

definition call :: "('l \<Rightarrow> 'a \<times> 'l) \<Rightarrow> ('l, 'u) world \<Rightarrow> 'a \<times> ('l, 'u) world" where
  "call f w = (case f (lib w) of (r, l) \<Rightarrow> (r, w\<lparr>lib := l\<rparr>))"

subsection \<open>The shim's functions\<close>

text \<open>\<^verbatim>\<open>char *le_readline(const char *prompt) { return readline(prompt); }\<close>\<close>

definition le_readline ::
  "('l, 'u) library \<Rightarrow> cstring \<Rightarrow> ('l, 'u) world \<Rightarrow> cstring \<times> ('l, 'u) world" where
  "le_readline L prompt w = call (readline L prompt) w"

text \<open>
  \<^verbatim>\<open>void le_add_history(const char *line) { if (line && *line) add_history(line); }\<close>
  The \<^verbatim>\<open>&&\<close> evaluates \<^verbatim>\<open>*line\<close> only when \<^verbatim>\<open>line\<close> is not NULL; \<^verbatim>\<open>*line\<close> is
  zero exactly when the string is empty. The result of \<^verbatim>\<open>add_history\<close> is dropped.
\<close>

definition le_add_history ::
  "('l, 'u) library \<Rightarrow> cstring \<Rightarrow> ('l, 'u) world \<Rightarrow> fault + ('l, 'u) world" where
  "le_add_history L line w =
     (if line = None then Inr w
      else case deref line of
             Inl f \<Rightarrow> Inl f
           | Inr s \<Rightarrow> if s \<noteq> [] then Inr (snd (call (add_history L s) w)) else Inr w)"

text \<open>\<^verbatim>\<open>int le_read_history(const char *path) { return read_history(path); }\<close>\<close>

definition le_read_history ::
  "('l, 'u) library \<Rightarrow> cstring \<Rightarrow> ('l, 'u) world \<Rightarrow> int \<times> ('l, 'u) world" where
  "le_read_history L path w = call (read_history L path) w"

text \<open>\<^verbatim>\<open>int le_write_history(const char *path) { return write_history(path); }\<close>\<close>

definition le_write_history ::
  "('l, 'u) library \<Rightarrow> cstring \<Rightarrow> ('l, 'u) world \<Rightarrow> int \<times> ('l, 'u) world" where
  "le_write_history L path w = call (write_history L path) w"

text \<open>\<^verbatim>\<open>void le_clear_history(void) { clear_history(); }\<close>\<close>

definition le_clear_history :: "('l, 'u) library \<Rightarrow> ('l, 'u) world \<Rightarrow> ('l, 'u) world" where
  "le_clear_history L w = w\<lparr>lib := clear_history L (lib w)\<rparr>"

text \<open>\<^verbatim>\<open>void le_initialize(void) { rl_initialize(); }\<close>\<close>

definition le_initialize :: "('l, 'u) library \<Rightarrow> ('l, 'u) world \<Rightarrow> ('l, 'u) world" where
  "le_initialize L w = snd (call (rl_initialize L) w)"

text \<open>
  \<^verbatim>\<open>
  int le_ding(void) {
  #ifdef rl_ding
      return rl_ding();
  #else
      fputc('\a', stdout);
      fflush(stdout);
      return 0;
  #endif
  }
  \<close>
  The first parameter says whether \<^verbatim>\<open>rl_ding\<close> is a preprocessor macro where the shim
  is compiled. In the fallback the results of \<^verbatim>\<open>fputc\<close> and \<^verbatim>\<open>fflush\<close> are dropped.
\<close>

definition BEL :: char where
  "BEL = CHR 0x07"

definition le_ding ::
  "bool \<Rightarrow> ('l, 'u) library \<Rightarrow> ('l, 'u) world \<Rightarrow> int \<times> ('l, 'u) world" where
  "le_ding rl_ding_defined L w =
     (if rl_ding_defined then call (rl_ding L) w
      else case call (fputc L BEL) w of
             (r1, w1) \<Rightarrow> (case call (fflush L) w1 of (r2, w2) \<Rightarrow> (0, w2)))"

text \<open>
  \<^verbatim>\<open>
  static char *le_generator_trampoline(const char *text, int state) {
      if (!s_generator) return NULL;
      return s_generator(text, state);
  }
  \<close>
\<close>

definition le_generator_trampoline ::
  "cstring \<Rightarrow> int \<Rightarrow> ('l, 'u) world \<Rightarrow> cstring \<times> ('l, 'u) world" where
  "le_generator_trampoline text state w =
     (case s_generator w of
        None \<Rightarrow> (None, w)
      | Some g \<Rightarrow> (case g text state (app w) of (r, u) \<Rightarrow> (r, w\<lparr>app := u\<rparr>)))"

text \<open>
  \<^verbatim>\<open>
  static char **attempted_completion(const char *text, int start, int end) {
      (void)start; (void)end;
      if (!s_generator) return NULL;
      return rl_completion_matches(text, (rl_compentry_func_t *)le_generator_trampoline);
  }
  \<close>
  A \<^verbatim>\<open>char **\<close> is NULL or the list of strings in front of the terminating NULL.
\<close>

definition attempted_completion ::
  "('l, 'u) library \<Rightarrow> cstring \<Rightarrow> int \<Rightarrow> int \<Rightarrow> ('l, 'u) world
     \<Rightarrow> (string list option \<times> ('l, 'u) world) option" where
  "attempted_completion L text start endp w =
     (if s_generator w = None then Some (None, w)
      else rl_completion_matches L text le_generator_trampoline w)"

text \<open>
  \<^verbatim>\<open>
  void le_set_completion(le_generator_t generator) {
      s_generator = generator;
      rl_attempted_completion_function = (rl_completion_func_t *)attempted_completion;
  }
  \<close>
\<close>

definition le_set_completion ::
  "'u le_generator_t option \<Rightarrow> ('l, 'u) world \<Rightarrow> ('l, 'u) world" where
  "le_set_completion generator w =
     w\<lparr>s_generator := generator,
       rl_attempted_completion_function := Some Attempted_completion\<rparr>"

section \<open>The second copy (Sources/CLibEdit/include/libedit_shim.c)\<close>

text \<open>
  The file under \<^verbatim>\<open>include/\<close> defines the same functions but \<^verbatim>\<open>le_ding\<close>; each is
  translated from that file's text and carries the suffix \<open>_inc\<close>.
\<close>

definition le_readline_inc ::
  "('l, 'u) library \<Rightarrow> cstring \<Rightarrow> ('l, 'u) world \<Rightarrow> cstring \<times> ('l, 'u) world" where
  "le_readline_inc L prompt w = call (readline L prompt) w"

definition le_add_history_inc ::
  "('l, 'u) library \<Rightarrow> cstring \<Rightarrow> ('l, 'u) world \<Rightarrow> fault + ('l, 'u) world" where
  "le_add_history_inc L line w =
     (if line = None then Inr w
      else case deref line of
             Inl f \<Rightarrow> Inl f
           | Inr s \<Rightarrow> if s \<noteq> [] then Inr (snd (call (add_history L s) w)) else Inr w)"

definition le_read_history_inc ::
  "('l, 'u) library \<Rightarrow> cstring \<Rightarrow> ('l, 'u) world \<Rightarrow> int \<times> ('l, 'u) world" where
  "le_read_history_inc L path w = call (read_history L path) w"

definition le_write_history_inc ::
  "('l, 'u) library \<Rightarrow> cstring \<Rightarrow> ('l, 'u) world \<Rightarrow> int \<times> ('l, 'u) world" where
  "le_write_history_inc L path w = call (write_history L path) w"

definition le_clear_history_inc ::
  "('l, 'u) library \<Rightarrow> ('l, 'u) world \<Rightarrow> ('l, 'u) world" where
  "le_clear_history_inc L w = w\<lparr>lib := clear_history L (lib w)\<rparr>"

definition le_initialize_inc :: "('l, 'u) library \<Rightarrow> ('l, 'u) world \<Rightarrow> ('l, 'u) world" where
  "le_initialize_inc L w = snd (call (rl_initialize L) w)"

definition le_generator_trampoline_inc ::
  "cstring \<Rightarrow> int \<Rightarrow> ('l, 'u) world \<Rightarrow> cstring \<times> ('l, 'u) world" where
  "le_generator_trampoline_inc text state w =
     (case s_generator w of
        None \<Rightarrow> (None, w)
      | Some g \<Rightarrow> (case g text state (app w) of (r, u) \<Rightarrow> (r, w\<lparr>app := u\<rparr>)))"

definition attempted_completion_inc ::
  "('l, 'u) library \<Rightarrow> cstring \<Rightarrow> int \<Rightarrow> int \<Rightarrow> ('l, 'u) world
     \<Rightarrow> (string list option \<times> ('l, 'u) world) option" where
  "attempted_completion_inc L text start endp w =
     (if s_generator w = None then Some (None, w)
      else rl_completion_matches L text le_generator_trampoline_inc w)"

definition le_set_completion_inc ::
  "'u le_generator_t option \<Rightarrow> ('l, 'u) world \<Rightarrow> ('l, 'u) world" where
  "le_set_completion_inc generator w =
     w\<lparr>s_generator := generator,
       rl_attempted_completion_function := Some Attempted_completion\<rparr>"

section \<open>libedit as documented\<close>

text \<open>
  To run the shim at a concrete input the record of external functions needs a value.
  \<open>libedit\<close> below gives each function the behaviour the readline-compatible API
  documents (\<^verbatim>\<open>readline\<close>: the shim's header says "returns malloc'd string or NULL on
  EOF"; \<^verbatim>\<open>add_history\<close> places the string at the end of the history list;
  \<^verbatim>\<open>read_history\<close> and \<^verbatim>\<open>write_history\<close> return 0 on success and the \<^verbatim>\<open>errno\<close> of the
  failure otherwise, where the shim's header says -1), on a state that holds what the
  properties below observe. How a history file is laid out in bytes is libedit's
  business and is not modelled: a file that \<^verbatim>\<open>write_history\<close> wrote is the list of
  entries it holds, any other file is its bytes.
\<close>

datatype tty_event = Line string | Eof | Interrupt

datatype disk_file = History_file "string list" | Other_file string

text \<open>
  \<open>write_error l p\<close> is the \<^verbatim>\<open>errno\<close> with which opening the path \<open>p\<close> for writing
  fails (a directory that does not exist, a missing permission), 0 when it opens.
\<close>

record libstate =
  history :: "string list"
  files :: "string \<Rightarrow> disk_file option"
  write_error :: "string \<Rightarrow> int"
  tty_in :: "tty_event list"
  tty_out :: string

definition ENOENT :: int where
  "ENOENT = 2"

definition EINVAL :: int where
  "EINVAL = 22"

text \<open>
  \<^verbatim>\<open>readline\<close> prints the prompt and gives the next line of the terminal; a read that
  ends without a line (end of input, or a read cut short by an interrupt) gives NULL.
\<close>

definition libedit_readline :: "cstring \<Rightarrow> libstate \<Rightarrow> cstring \<times> libstate" where
  "libedit_readline prompt l =
     (let l1 = l\<lparr>tty_out := tty_out l @ (case prompt of None \<Rightarrow> [] | Some p \<Rightarrow> p)\<rparr>
      in case tty_in l1 of
           [] \<Rightarrow> (None, l1)
         | Line s # evs \<Rightarrow> (Some s, l1\<lparr>tty_in := evs\<rparr>)
         | Eof # evs \<Rightarrow> (None, l1\<lparr>tty_in := evs\<rparr>)
         | Interrupt # evs \<Rightarrow> (None, l1\<lparr>tty_in := evs\<rparr>))"

definition libedit_add_history :: "string \<Rightarrow> libstate \<Rightarrow> int \<times> libstate" where
  "libedit_add_history s l = (0, l\<lparr>history := history l @ [s]\<rparr>)"

text \<open>A NULL file name stands for the default history file.\<close>

definition history_file :: "cstring \<Rightarrow> string" where
  "history_file path = (case path of None \<Rightarrow> ''~/.history'' | Some p \<Rightarrow> p)"

text \<open>
  \<^verbatim>\<open>read_history\<close> fails with \<^verbatim>\<open>ENOENT\<close> when the file does not exist and with
  \<^verbatim>\<open>EINVAL\<close> when it is not a history file; else it appends the file's entries.
\<close>

definition libedit_read_history :: "cstring \<Rightarrow> libstate \<Rightarrow> int \<times> libstate" where
  "libedit_read_history path l =
     (case files l (history_file path) of
        None \<Rightarrow> (ENOENT, l)
      | Some (Other_file bytes) \<Rightarrow> (EINVAL, l)
      | Some (History_file entries) \<Rightarrow> (0, l\<lparr>history := history l @ entries\<rparr>))"

text \<open>
  \<^verbatim>\<open>write_history\<close> fails with the \<^verbatim>\<open>errno\<close> of the open when the file cannot be
  opened for writing, and writes nothing then; else it rewrites the file.
\<close>

definition libedit_write_history :: "cstring \<Rightarrow> libstate \<Rightarrow> int \<times> libstate" where
  "libedit_write_history path l =
     (if write_error l (history_file path) = 0
      then (0, l\<lparr>files := (files l)(history_file path \<mapsto> History_file (history l))\<rparr>)
      else (write_error l (history_file path), l))"

definition libedit_putc :: "char \<Rightarrow> libstate \<Rightarrow> int \<times> libstate" where
  "libedit_putc c l = (of_char c, l\<lparr>tty_out := tty_out l @ [c]\<rparr>)"

text \<open>
  \<^verbatim>\<open>rl_completion_matches(text, entry_func)\<close>: the loop that the comment in
  \<^verbatim>\<open>attempted_completion\<close> describes ("will call le_generator_trampoline with state =
  0,1,2,..."). It calls the entry function with the number of matches found so far until
  the answer is NULL; it does not return when that never happens. The result is NULL for
  no match, else the longest common prefix of the matches followed by the matches.
  The count is an unbounded integer here: a cycle with more matches than a C \<^verbatim>\<open>int\<close>
  counts is outside the model.
\<close>

partial_function (option) collect_matches ::
  "(cstring \<Rightarrow> int \<Rightarrow> 'w \<Rightarrow> cstring \<times> 'w) \<Rightarrow> cstring \<Rightarrow> int \<Rightarrow> string list \<Rightarrow> 'w
     \<Rightarrow> (string list \<times> 'w) option" where
  "collect_matches genfunc text matches match_list w =
     (case genfunc text matches w of
        (None, w') \<Rightarrow> Some (match_list, w')
      | (Some retstr, w') \<Rightarrow>
          collect_matches genfunc text (matches + 1) (match_list @ [retstr]) w')"

fun common_prefix :: "string \<Rightarrow> string \<Rightarrow> string" where
  "common_prefix (x # xs) (y # ys) = (if x = y then x # common_prefix xs ys else [])"
| "common_prefix xs ys = []"

definition match_array :: "string list \<Rightarrow> string list option" where
  "match_array match_list =
     (case match_list of
        [] \<Rightarrow> None
      | m # ms \<Rightarrow> Some (fold common_prefix ms m # m # ms))"

definition completion_matches ::
  "cstring \<Rightarrow> (cstring \<Rightarrow> int \<Rightarrow> 'w \<Rightarrow> cstring \<times> 'w) \<Rightarrow> 'w
     \<Rightarrow> (string list option \<times> 'w) option" where
  "completion_matches text genfunc w =
     (case collect_matches genfunc text 0 [] w of
        None \<Rightarrow> None
      | Some (match_list, w') \<Rightarrow> Some (match_array match_list, w'))"

definition libedit :: "(libstate, 'u) library" where
  "libedit =
     \<lparr>readline = libedit_readline,
      add_history = libedit_add_history,
      read_history = libedit_read_history,
      write_history = libedit_write_history,
      clear_history = (\<lambda>l. l\<lparr>history := []\<rparr>),
      rl_initialize = (\<lambda>l. (0, l)),
      rl_ding = (\<lambda>l. (0, snd (libedit_putc BEL l))),
      fputc = libedit_putc,
      fflush = (\<lambda>l. (0, l)),
      rl_completion_matches = completion_matches\<rparr>"

section \<open>Programs that use the shim\<close>

text \<open>
  What an application does with the shim is a list of events: calls of the exported
  functions, and completion attempts, where the library calls whatever
  \<^verbatim>\<open>rl_attempted_completion_function\<close> holds (nothing of the shim runs while it is
  NULL). A run ends in a fault, in a state, or not at all (\<open>None\<close>).
\<close>

datatype 'u api_call =
    Call_readline cstring
  | Call_add_history cstring
  | Call_read_history cstring
  | Call_write_history cstring
  | Call_clear_history
  | Call_initialize
  | Call_ding
  | Call_set_completion "'u le_generator_t option"
  | Completion cstring int int

fun step ::
  "bool \<Rightarrow> ('l, 'u) library \<Rightarrow> 'u api_call \<Rightarrow> ('l, 'u) world
     \<Rightarrow> (fault + ('l, 'u) world) option" where
  "step c L (Call_readline prompt) w = Some (Inr (snd (le_readline L prompt w)))"
| "step c L (Call_add_history line) w = Some (le_add_history L line w)"
| "step c L (Call_read_history path) w = Some (Inr (snd (le_read_history L path w)))"
| "step c L (Call_write_history path) w = Some (Inr (snd (le_write_history L path w)))"
| "step c L Call_clear_history w = Some (Inr (le_clear_history L w))"
| "step c L Call_initialize w = Some (Inr (le_initialize L w))"
| "step c L Call_ding w = Some (Inr (snd (le_ding c L w)))"
| "step c L (Call_set_completion generator) w = Some (Inr (le_set_completion generator w))"
| "step c L (Completion text start endp) w =
     (case rl_attempted_completion_function w of
        None \<Rightarrow> Some (Inr w)
      | Some Attempted_completion \<Rightarrow>
          (case attempted_completion L text start endp w of
             None \<Rightarrow> None
           | Some (r, w') \<Rightarrow> Some (Inr w')))"

fun run ::
  "bool \<Rightarrow> ('l, 'u) library \<Rightarrow> 'u api_call list \<Rightarrow> ('l, 'u) world
     \<Rightarrow> (fault + ('l, 'u) world) option" where
  "run c L [] w = Some (Inr w)"
| "run c L (e # es) w =
     (case step c L e w of
        None \<Rightarrow> None
      | Some (Inl f) \<Rightarrow> Some (Inl f)
      | Some (Inr w') \<Rightarrow> run c L es w')"

text \<open>The generator of the last registration in a list of events, \<open>g\<close> when there is none.\<close>

fun registered ::
  "'u api_call list \<Rightarrow> 'u le_generator_t option \<Rightarrow> 'u le_generator_t option" where
  "registered [] g = g"
| "registered (Call_set_completion g' # es) g = registered es g'"
| "registered (e # es) g = registered es g"

text \<open>
  \<^verbatim>\<open>s_generator\<close> is static to the shim's file, so no library function can assign it;
  for \<open>rl_completion_matches\<close>, which works on the whole state here, that is a condition
  on the record.
\<close>

definition keeps_statics :: "('l, 'u) library \<Rightarrow> bool" where
  "keeps_statics L =
     (\<forall>text w r w'.
        rl_completion_matches L text le_generator_trampoline w = Some (r, w')
        \<longrightarrow> s_generator w' = s_generator w)"

text \<open>
  \<open>run_calls f text k n\<close> is \<open>n\<close> calls of \<open>f\<close> in a row, with the states
  \<open>k\<close>, \<open>k + 1\<close>, ...: the answers and the state after the last call.
\<close>

fun run_calls ::
  "(cstring \<Rightarrow> int \<Rightarrow> 'w \<Rightarrow> cstring \<times> 'w) \<Rightarrow> cstring \<Rightarrow> int \<Rightarrow> nat \<Rightarrow> 'w
     \<Rightarrow> cstring list \<times> 'w" where
  "run_calls f text k 0 w = ([], w)"
| "run_calls f text k (Suc n) w =
     (case f text k w of (r, w') \<Rightarrow>
        (case run_calls f text (k + 1) n w' of (rs, w'') \<Rightarrow> (r # rs, w'')))"

text \<open>
  \<open>logged g\<close> is the generator \<open>g\<close> that also writes down, in the application's state,
  the \<open>state\<close> argument of every call it receives.
\<close>

definition logged :: "'u le_generator_t \<Rightarrow> (int list \<times> 'u) le_generator_t" where
  "logged g text state =
     (\<lambda>(log, u). case g text state u of (r, u') \<Rightarrow> (r, (log @ [state], u')))"

text \<open>Concrete generators, states and programs for the examples.\<close>

definition list_generator :: "string list \<Rightarrow> 'u le_generator_t" where
  "list_generator cands text state u =
     (if 0 \<le> state \<and> nat state < length cands then Some (cands ! nat state) else None, u)"

definition counting_generator :: "nat le_generator_t" where
  "counting_generator text state n = (None, Suc n)"

definition empty_lib :: libstate where
  "empty_lib =
     \<lparr>history = [], files = Map.empty, write_error = (\<lambda>p. 0), tty_in = [], tty_out = []\<rparr>"

definition history_world :: "string list \<Rightarrow> (libstate, unit) world" where
  "history_world hs = initial_world (empty_lib\<lparr>history := hs\<rparr>) ()"

definition tty_world :: "tty_event list \<Rightarrow> (libstate, unit) world" where
  "tty_world evs = initial_world (empty_lib\<lparr>tty_in := evs\<rparr>) ()"

definition completion_world :: "'u le_generator_t \<Rightarrow> 'u \<Rightarrow> (libstate, 'u) world" where
  "completion_world g u = le_set_completion (Some g) (initial_world empty_lib u)"

definition demo_calls :: "unit api_call list" where
  "demo_calls =
     [Call_set_completion (Some (list_generator [''cat''])),
      Call_add_history (Some ''ls''),
      Call_set_completion (Some (list_generator [''dog'', ''dot''])),
      Call_ding,
      Completion (Some ''do'') 0 2,
      Call_readline (Some ''> '')]"

section \<open>Lemmas\<close>

subsection \<open>The completion loop\<close>

lemma length_run_calls: "length (fst (run_calls f text k n w)) = n"
proof (induction n arbitrary: k w)
  case 0
  then show ?case by simp
next
  case (Suc n)
  obtain r w1 where f: "f text k w = (r, w1)"
    by (cases "f text k w")
  from Suc.IH [of "k + 1" w1] f show ?case
    by (auto split: prod.splits)
qed

lemma collect_run:
  "fst (run_calls f text k (Suc n) w) = map Some ms @ [None]
   \<Longrightarrow> collect_matches f text k acc w = Some (acc @ ms, snd (run_calls f text k (Suc n) w))"
proof (induction n arbitrary: k acc w ms)
  case 0
  then show ?case
    by (subst collect_matches.simps) (auto split: prod.splits option.splits)
next
  case (Suc n)
  obtain r w1 where f: "f text k w = (r, w1)"
    by (cases "f text k w")
  obtain rs w2 where rc: "run_calls f text (k + 1) (Suc n) w1 = (rs, w2)"
    by (cases "run_calls f text (k + 1) (Suc n) w1")
  from Suc.prems f rc have eq: "r # rs = map Some ms @ [None]"
    by simp
  from rc length_run_calls [of f "text" "k + 1" "Suc n" w1] have "rs \<noteq> []"
    by auto
  with eq obtain m ms' where ms: "ms = m # ms'"
    by (cases ms) auto
  with eq have r: "r = Some m" and rs: "rs = map Some ms' @ [None]"
    by auto
  from rs rc have "fst (run_calls f text (k + 1) (Suc n) w1) = map Some ms' @ [None]"
    by simp
  from Suc.IH [OF this, of "acc @ [m]"] rc
  have "collect_matches f text (k + 1) (acc @ [m]) w1 = Some (acc @ ms, w2)"
    by (simp add: ms)
  moreover have "snd (run_calls f text k (Suc (Suc n)) w) = w2"
    using f rc by simp
  ultimately show ?case
    using f r by (subst collect_matches.simps) simp
qed

lemma run_calls_trampoline:
  "s_generator w = Some g \<Longrightarrow>
   run_calls le_generator_trampoline text k n w =
     (fst (run_calls g text k n (app w)), w\<lparr>app := snd (run_calls g text k n (app w))\<rparr>)"
proof (induction n arbitrary: k w)
  case 0
  then show ?case by simp
next
  case (Suc n)
  obtain r u where g: "g text k (app w) = (r, u)"
    by (cases "g text k (app w)")
  with Suc.prems have t: "le_generator_trampoline text k w = (r, w\<lparr>app := u\<rparr>)"
    by (simp add: le_generator_trampoline_def)
  have "s_generator (w\<lparr>app := u\<rparr>) = Some g"
    using Suc.prems by simp
  from Suc.IH [OF this, of "k + 1"] t g show ?case
    by (simp split: prod.splits)
qed

lemma upt_shift: "map (\<lambda>i. k + int i) [0..<Suc n] = k # map (\<lambda>i. (k + 1) + int i) [0..<n]"
proof -
  have "[0..<Suc n] = 0 # map Suc [0..<n]"
    by (simp add: upt_conv_Cons map_Suc_upt del: upt_Suc)
  then show ?thesis
    by (simp add: comp_def add.commute add.left_commute del: upt_Suc)
qed

lemma run_calls_logged:
  "run_calls (logged g) text k n (log, u) =
     (fst (run_calls g text k n u),
      (log @ map (\<lambda>i. k + int i) [0..<n], snd (run_calls g text k n u)))"
proof (induction n arbitrary: k log u)
  case 0
  then show ?case by simp
next
  case (Suc n)
  obtain r u1 where g: "g text k u = (r, u1)"
    by (cases "g text k u")
  then have l: "logged g text k (log, u) = (r, (log @ [k], u1))"
    by (simp add: logged_def)
  from Suc.IH [of "k + 1" "log @ [k]" u1] g l show ?case
    by (simp add: upt_shift split: prod.splits del: upt_Suc)
qed

lemma trampoline_slot:
  "s_generator (snd (le_generator_trampoline text state w)) = s_generator w"
  by (simp add: le_generator_trampoline_def split: option.split prod.split)

lemma collect_invariant:
  assumes c: "collect_matches f tx k acc w = Some y"
    and inv: "\<And>tx k w. I (snd (f tx k w)) = I w"
  shows "I (snd y) = I w"
proof -
  have step: "g = f \<longrightarrow> I (snd y) = I w"
    if IH: "\<And>g tx k acc w y. collect g tx k acc w = Some y \<Longrightarrow> g = f \<longrightarrow> I (snd y) = I w"
      and eq: "(case g tx k w of
          (None, w') \<Rightarrow> Some (acc, w')
        | (Some retstr, w') \<Rightarrow> collect g tx (k + 1) (acc @ [retstr]) w') = Some y"
    for collect g tx k acc w y
  proof
    assume g: "g = f"
    obtain r w1 where t: "g tx k w = (r, w1)"
      by (cases "g tx k w")
    with g inv [of tx k w] have s: "I w1 = I w"
      by simp
    show "I (snd y) = I w"
    proof (cases r)
      case None
      with eq t s show ?thesis by auto
    next
      case (Some m)
      with eq t have "collect g tx (k + 1) (acc @ [m]) w1 = Some y"
        by simp
      from IH [OF this] g s show ?thesis by simp
    qed
  qed
  have "f = f \<longrightarrow> I (snd y) = I w"
    by (rule collect_matches.raw_induct
        [where P = "\<lambda>g tx k acc w y. g = f \<longrightarrow> I (snd y) = I w", OF _ c])
      (rule step)
  then show ?thesis by simp
qed

lemma collect_trampoline_slot:
  assumes "collect_matches le_generator_trampoline tx k acc w = Some y"
  shows "s_generator (snd y) = s_generator w"
  using assms by (rule collect_invariant) (rule trampoline_slot)

subsection \<open>The generator slot along a run\<close>

lemma libedit_keeps_statics: "keeps_statics libedit"
  unfolding keeps_statics_def
proof (intro allI impI)
  fix tx and w :: "(libstate, 'u) world" and r w'
  assume "rl_completion_matches libedit tx le_generator_trampoline w = Some (r, w')"
  then obtain ml where "collect_matches le_generator_trampoline tx 0 [] w = Some (ml, w')"
    by (auto simp: libedit_def completion_matches_def split: option.splits)
  from collect_trampoline_slot [OF this] show "s_generator w' = s_generator w"
    by simp
qed

lemma step_slot:
  assumes "keeps_statics L" and "step c L e w = Some (Inr w')"
  shows "s_generator w' = registered [e] (s_generator w)"
proof (cases e)
  case (Call_add_history line)
  with assms show ?thesis
    by (auto simp: le_add_history_def call_def split: if_splits sum.splits prod.splits)
next
  case (Completion tx start endp)
  with assms show ?thesis
    by (auto simp: attempted_completion_def keeps_statics_def
        split: option.splits completion_func.splits if_splits)
next
  case Call_ding
  with assms show ?thesis
    by (auto simp: le_ding_def call_def split: prod.splits if_splits)
qed (use assms in \<open>auto simp: le_readline_def le_read_history_def le_write_history_def
      le_clear_history_def le_initialize_def le_set_completion_def call_def
      split: prod.splits\<close>)

lemma registered_step: "registered (e # es) g = registered es (registered [e] g)"
  by (cases e) simp_all

lemma run_slot:
  "keeps_statics L \<Longrightarrow> run c L es w = Some (Inr w')
   \<Longrightarrow> s_generator w' = registered es (s_generator w)"
proof (induction es arbitrary: w)
  case Nil
  then show ?case by simp
next
  case (Cons e es)
  from Cons.prems(2) obtain w1 where s: "step c L e w = Some (Inr w1)"
    and r: "run c L es w1 = Some (Inr w')"
    by (auto split: option.splits sum.splits)
  from Cons.IH [OF Cons.prems(1) r] step_slot [OF Cons.prems(1) s] show ?case
    by (simp add: registered_step [of e es])
qed

lemma step_never_faults: "step c L e w \<noteq> Some (Inl f)"
  by (cases e) (auto simp: le_add_history_def split: option.splits completion_func.splits if_splits)

lemma demo_run:
  "\<exists>w'. run False libedit demo_calls (initial_world empty_lib ()) = Some (Inr w')"
  by (simp add: demo_calls_def le_set_completion_def initial_world_def empty_lib_def
      le_add_history_def call_def libedit_def libedit_add_history_def le_ding_def
      libedit_putc_def attempted_completion_def completion_matches_def
      collect_matches.simps le_generator_trampoline_def list_generator_def
      le_readline_def libedit_readline_def Let_def BEL_def)

section \<open>Properties\<close>

subsection \<open>History\<close>

text \<open>
  C1 (as the code has it). \<^verbatim>\<open>le_add_history\<close> does nothing when the line is NULL or
  empty. Every other line, also one equal to the entry appended last, is passed to
  \<^verbatim>\<open>add_history\<close> exactly once, whatever the library; with libedit's \<^verbatim>\<open>add_history\<close>
  the line becomes exactly one new entry at the end of the history, whose length grows
  by one.
\<close>

theorem le_add_history_forwards:
  "le_add_history L None w = Inr w
   \<and> le_add_history L (Some []) w = Inr w
   \<and> le_add_history L (Some (c # cs)) w = Inr (snd (call (add_history L (c # cs)) w))
   \<and> le_add_history libedit (Some (c # cs)) v
       = Inr (v\<lparr>lib := (lib v)\<lparr>history := history (lib v) @ [c # cs]\<rparr>\<rparr>)
   \<and> length (history (lib v) @ [c # cs]) = length (history (lib v)) + 1"
  by (simp add: le_add_history_def call_def libedit_def libedit_add_history_def)

text \<open>
  C1 as stated fails: the shim compares the line with nothing. Appending \<open>''ls''\<close> to
  the history \<open>[''ls'']\<close> gives \<open>[''ls'', ''ls'']\<close>, not the history as it was.
\<close>

theorem le_add_history_duplicate_appended:
  "le_add_history libedit (Some ''ls'') (history_world [''ls''])
     = Inr (history_world [''ls'', ''ls''])
   \<and> le_add_history libedit (Some ''ls'') (history_world [''ls''])
     \<noteq> Inr (history_world [''ls''])"
  by (simp add: le_add_history_def call_def libedit_def libedit_add_history_def
      history_world_def initial_world_def empty_lib_def)

text \<open>
  C9. \<^verbatim>\<open>le_add_history(NULL)\<close> is a safe no-op: whatever the library, the call ends
  without a fault (the pointer is never read through) and the whole state, the history
  with it, is as before.
\<close>

theorem le_add_history_null:
  "le_add_history L None w = Inr w"
  by (simp add: le_add_history_def)



subsection \<open>Reading a line\<close>

text \<open>
  C2 (as the code has it). \<^verbatim>\<open>le_readline\<close> returns what \<^verbatim>\<open>readline\<close> returns, whatever
  the library, and changes nothing but the library's state. With libedit that is the
  completed string on submit and NULL in every other case: on end of input and on an
  interrupted read alike. There are two outcomes a caller can tell apart, not three.
\<close>

theorem le_readline_outcomes:
  "le_readline L prompt w
     = (fst (readline L prompt (lib w)), w\<lparr>lib := snd (readline L prompt (lib w))\<rparr>)
   \<and> fst (le_readline libedit prompt (v\<lparr>lib := (lib v)\<lparr>tty_in := Line s # evs\<rparr>\<rparr>)) = Some s
   \<and> fst (le_readline libedit prompt (v\<lparr>lib := (lib v)\<lparr>tty_in := Eof # evs\<rparr>\<rparr>)) = None
   \<and> fst (le_readline libedit prompt (v\<lparr>lib := (lib v)\<lparr>tty_in := Interrupt # evs\<rparr>\<rparr>)) = None
   \<and> fst (le_readline libedit prompt (v\<lparr>lib := (lib v)\<lparr>tty_in := []\<rparr>\<rparr>)) = None"
  by (simp add: le_readline_def call_def libedit_def libedit_readline_def Let_def
      split: prod.split)

text \<open>
  C2 as stated fails: a \<^verbatim>\<open>char *\<close> has one value that is not a string. An interrupted
  read and the end of input both return NULL, so the caller cannot tell them apart.
\<close>

theorem le_readline_interrupt_is_eof:
  "fst (le_readline libedit (Some ''> '') (tty_world [Interrupt]))
     = fst (le_readline libedit (Some ''> '') (tty_world [Eof]))
   \<and> fst (le_readline libedit (Some ''> '') (tty_world [Interrupt])) = None"
  by (simp add: le_readline_def call_def libedit_def libedit_readline_def Let_def
      tty_world_def initial_world_def empty_lib_def)

subsection \<open>The bell\<close>

text \<open>
  C8. On the fallback path (\<^verbatim>\<open>rl_ding\<close> not defined as a macro) \<^verbatim>\<open>le_ding\<close> returns 0
  for every call, whatever \<^verbatim>\<open>fputc\<close> and \<^verbatim>\<open>fflush\<close> returned.
\<close>

theorem le_ding_fallback_returns_zero:
  "fst (le_ding False L w) = 0"
  by (simp add: le_ding_def split: prod.split)

subsection \<open>Completion\<close>

text \<open>
  C6. There is one generator slot. It is NULL at program start;
  \<^verbatim>\<open>le_set_completion(g)\<close> stores \<open>g\<close> there, over whatever was registered before, and
  installs the shim's completion function. Along any run of the application the slot
  holds the generator of the last registration (for every library that cannot assign the
  shim's static variable). While the slot holds \<open>h\<close>, the trampoline forwards its
  arguments to \<open>h\<close> and returns its answer, and a completion attempt hands the trampoline
  to \<^verbatim>\<open>rl_completion_matches\<close>. While the slot is NULL, the trampoline and the
  completion attempt return NULL and change nothing.
\<close>

theorem generator_slot:
  "s_generator (initial_world l u) = None
   \<and> s_generator (le_set_completion g w) = g
   \<and> rl_attempted_completion_function (le_set_completion g w) = Some Attempted_completion
   \<and> (keeps_statics L \<longrightarrow> run c L es w = Some (Inr w')
        \<longrightarrow> s_generator w' = registered es (s_generator w))
   \<and> (s_generator v = Some h \<longrightarrow>
        le_generator_trampoline tx state v
          = (fst (h tx state (app v)), v\<lparr>app := snd (h tx state (app v))\<rparr>)
        \<and> attempted_completion L tx start endp v
          = rl_completion_matches L tx le_generator_trampoline v)
   \<and> (s_generator v = None \<longrightarrow>
        le_generator_trampoline tx state v = (None, v)
        \<and> attempted_completion L tx start endp v = Some (None, v))"
proof -
  have "s_generator w' = registered es (s_generator w)"
    if "keeps_statics L" and "run c L es w = Some (Inr w')"
    using run_slot [OF that] .
  then show ?thesis
    by (auto simp: initial_world_def le_set_completion_def le_generator_trampoline_def
        attempted_completion_def split: prod.split)
qed

text \<open>
  C6 at a concrete program: two registrations with other calls and a completion attempt
  around them. The run ends with the second generator in the slot; the trampoline
  forwards to it; before any registration a completion attempt returns NULL.
\<close>

theorem generator_slot_witness:
  "keeps_statics (libedit :: (libstate, unit) library)
   \<and> (\<exists>w'. run False libedit demo_calls (initial_world empty_lib ()) = Some (Inr w')
          \<and> s_generator w' = Some (list_generator [''dog'', ''dot'']))
   \<and> le_generator_trampoline (Some ''do'') 1
        (completion_world (list_generator [''dog'', ''dot'']) ())
      = (Some ''dot'', completion_world (list_generator [''dog'', ''dot'']) ())
   \<and> attempted_completion libedit (Some ''do'') 0 2 (initial_world empty_lib ())
      = Some (None, initial_world empty_lib ())"
proof -
  let ?L = "libedit :: (libstate, unit) library"
  let ?g = "list_generator [''dog'', ''dot''] :: unit le_generator_t"
  let ?w0 = "initial_world empty_lib () :: (libstate, unit) world"
  let ?v = "completion_world ?g ()"
  have k: "keeps_statics ?L"
    by (rule libedit_keeps_statics)
  obtain w1 where r: "run False ?L demo_calls ?w0 = Some (Inr w1)"
    using demo_run by blast
  have s0: "s_generator ?w0 = None"
    by (simp add: initial_world_def)
  have sv: "s_generator ?v = Some ?g"
    by (simp add: completion_world_def le_set_completion_def)
  have reg: "registered demo_calls None = Some ?g"
    by (simp add: demo_calls_def)
  note slot = generator_slot [where l = empty_lib and u = "()" and g = None
      and L = ?L and c = False and es = demo_calls and w = ?w0
      and w' = w1 and tx = "Some ''do''" and start = 0 and endp = 2]
  from slot [where v = ?w0 and state = 0] k r s0 reg
  have a: "s_generator w1 = Some ?g"
    and b: "attempted_completion ?L (Some ''do'') 0 2 ?w0 = Some (None, ?w0)"
    by simp_all
  from slot [where v = ?v and state = 1 and h = ?g] sv
  have "le_generator_trampoline (Some ''do'') 1 ?v
      = (fst (?g (Some ''do'') 1 (app ?v)), ?v\<lparr>app := snd (?g (Some ''do'') 1 (app ?v))\<rparr>)"
    by simp
  then have c: "le_generator_trampoline (Some ''do'') 1 ?v = (Some ''dot'', ?v)"
    by (simp add: list_generator_def)
  from k r a b c show ?thesis
    by blast
qed

text \<open>
  C5. In one completion cycle the registered generator is called with the states
  0, 1, 2, ... in this order, up to and with the call that returns NULL, and not again:
  when the first \<open>n\<close> calls return the matches \<open>ms\<close> and the next one returns NULL, the
  completion attempt returns, the generator's log of the states it was called with has
  grown by exactly \<open>0, ..., n\<close>, and the application's state is the one those calls
  leave. The loop is \<^verbatim>\<open>rl_completion_matches\<close> of libedit; the shim's trampoline passes
  each state on unchanged.
\<close>

theorem generator_call_sequence:
  assumes "s_generator w = Some (logged g)" and "app w = (log, u)"
    and "fst (run_calls g tx 0 (Suc n) u) = map Some ms @ [None]"
  shows "attempted_completion libedit tx start endp w
    = Some (match_array ms,
        w\<lparr>app := (log @ map int [0..<Suc n], snd (run_calls g tx 0 (Suc n) u))\<rparr>)"
proof -
  from assms(2) run_calls_logged [of g tx 0 "Suc n" log u]
  have l: "run_calls (logged g) tx 0 (Suc n) (app w)
      = (fst (run_calls g tx 0 (Suc n) u),
         (log @ map int [0..<Suc n], snd (run_calls g tx 0 (Suc n) u)))"
    by simp
  from run_calls_trampoline [OF assms(1), of tx 0 "Suc n"] l
  have t: "run_calls le_generator_trampoline tx 0 (Suc n) w
      = (fst (run_calls g tx 0 (Suc n) u),
         w\<lparr>app := (log @ map int [0..<Suc n], snd (run_calls g tx 0 (Suc n) u))\<rparr>)"
    by simp
  with assms(3)
  have "fst (run_calls le_generator_trampoline tx 0 (Suc n) w) = map Some ms @ [None]"
    by simp
  from collect_run [OF this, of "[]"] t
  have "collect_matches le_generator_trampoline tx 0 [] w
      = Some (ms, w\<lparr>app := (log @ map int [0..<Suc n], snd (run_calls g tx 0 (Suc n) u))\<rparr>)"
    by simp
  with assms(1) show ?thesis
    by (simp add: attempted_completion_def libedit_def completion_matches_def)
qed

text \<open>
  C5 at a concrete generator with the candidates \<open>''cat''\<close> and \<open>''car''\<close>: it is called
  with the states 0, 1 and 2, and the call with state 2 returns NULL.
\<close>

theorem generator_call_sequence_witness:
  "attempted_completion libedit (Some ''ca'') 0 2
     (completion_world (logged (list_generator [''cat'', ''car''])) ([], ()))
   = Some (Some [''ca'', ''cat'', ''car''],
       (completion_world (logged (list_generator [''cat'', ''car''])) ([], ()))
         \<lparr>app := ([0, 1, 2], ())\<rparr>)"
proof -
  let ?g = "list_generator [''cat'', ''car''] :: unit le_generator_t"
  let ?w = "completion_world (logged ?g) ([], ())"
  have 1: "s_generator ?w = Some (logged ?g)"
    by (simp add: completion_world_def le_set_completion_def)
  have 2: "app ?w = ([], ())"
    by (simp add: completion_world_def le_set_completion_def initial_world_def)
  have 3: "fst (run_calls ?g (Some ''ca'') 0 (Suc 2) ()) = map Some [''cat'', ''car''] @ [None]"
    by (simp add: list_generator_def eval_nat_numeral)
  have 4: "map int [0..<Suc 2] = [0, 1, 2]"
    by (simp add: eval_nat_numeral)
  from generator_call_sequence [OF 1 2 3, of 0 2] 4 show ?thesis
    by (simp add: match_array_def)
qed

text \<open>
  C7 (as the code has it). When a completion attempt runs and the generator yields no
  candidate (its first call, with state 0, returns NULL), \<^verbatim>\<open>attempted_completion\<close>
  returns NULL and rings no bell: the state it leaves is the one before the attempt
  but for what the generator's one call did to the application, so nothing has been
  written to the terminal; and whatever the library, the attempt is the same with any
  other \<^verbatim>\<open>rl_ding\<close>, \<^verbatim>\<open>fputc\<close> and \<^verbatim>\<open>fflush\<close>, so it calls none of them.
\<close>

theorem completion_without_candidates:
  assumes "s_generator w = Some g" and "fst (g tx 0 (app w)) = None"
  shows "attempted_completion libedit tx start endp w
           = Some (None, w\<lparr>app := snd (g tx 0 (app w))\<rparr>)
         \<and> attempted_completion (L\<lparr>rl_ding := d, fputc := p, fflush := f\<rparr>) tx' start' endp' v
           = attempted_completion L tx' start' endp' v"
proof -
  obtain u where g: "g tx 0 (app w) = (None, u)"
    using assms(2) by (cases "g tx 0 (app w)") simp
  with assms(1) have "le_generator_trampoline tx 0 w = (None, w\<lparr>app := u\<rparr>)"
    by (simp add: le_generator_trampoline_def)
  then have "collect_matches le_generator_trampoline tx 0 [] w = Some ([], w\<lparr>app := u\<rparr>)"
    by (subst collect_matches.simps) simp
  with assms(1) g
  have "attempted_completion libedit tx start endp w = Some (None, w\<lparr>app := snd (g tx 0 (app w))\<rparr>)"
    by (simp add: attempted_completion_def libedit_def completion_matches_def match_array_def)
  moreover
  have "attempted_completion (L\<lparr>rl_ding := d, fputc := p, fflush := f\<rparr>) tx' start' endp' v
      = attempted_completion L tx' start' endp' v"
    by (simp add: attempted_completion_def)
  ultimately show ?thesis
    by simp
qed

text \<open>
  C7 at a generator without candidates that counts its calls: the attempt returns NULL
  after one call of the generator, the terminal has received nothing, and with a bell
  that cannot sound the attempt is the same.
\<close>

theorem completion_without_candidates_witness:
  "attempted_completion libedit (Some ''zz'') 0 2 (completion_world counting_generator 0)
     = Some (None, (completion_world counting_generator 0)\<lparr>app := 1\<rparr>)
   \<and> tty_out (lib ((completion_world counting_generator 0)\<lparr>app := 1\<rparr>)) = []
   \<and> attempted_completion
        (libedit\<lparr>rl_ding := (\<lambda>l. (- 1, l)), fputc := (\<lambda>c l. (- 1, l)), fflush := (\<lambda>l. (- 1, l))\<rparr>)
        (Some ''zz'') 0 2 (completion_world counting_generator 0)
     = attempted_completion libedit (Some ''zz'') 0 2 (completion_world counting_generator 0)"
proof -
  let ?w = "completion_world counting_generator 0"
  have 1: "s_generator ?w = Some counting_generator"
    by (simp add: completion_world_def le_set_completion_def)
  have 2: "fst (counting_generator (Some ''zz'') 0 (app ?w)) = None"
    by (simp add: counting_generator_def)
  have 3: "snd (counting_generator (Some ''zz'') 0 (app ?w)) = 1"
    by (simp add: counting_generator_def completion_world_def le_set_completion_def
        initial_world_def)
  have 4: "tty_out (lib (?w\<lparr>app := 1\<rparr>)) = []"
    by (simp add: completion_world_def le_set_completion_def initial_world_def empty_lib_def)
  from completion_without_candidates [OF 1 2, where start = 0 and endp = 2 and L = libedit
      and d = "\<lambda>l. (- 1, l)" and p = "\<lambda>c l. (- 1, l)" and f = "\<lambda>l. (- 1, l)"
      and tx' = "Some ''zz''" and start' = 0 and endp' = 2 and v = ?w] 3 4
  show ?thesis
    by simp
qed

text \<open>
  C7 as stated fails on the bell: after a completion attempt whose generator yields
  no candidate, the state is the one before it and the terminal has received no BEL.
\<close>

theorem completion_without_candidates_no_bell:
  "attempted_completion libedit (Some ''zz'') 0 2 (completion_world (list_generator []) ())
     = Some (None, completion_world (list_generator []) ())
   \<and> BEL \<notin> set (tty_out (lib (completion_world (list_generator []) ())))"
  by (simp add: attempted_completion_def libedit_def completion_matches_def match_array_def
      collect_matches.simps le_generator_trampoline_def list_generator_def
      completion_world_def le_set_completion_def initial_world_def empty_lib_def)

subsection \<open>The two copies of the shim\<close>

text \<open>
  C10. Every function that both copies of the shim define is the same function in both;
  \<^verbatim>\<open>le_ding\<close> has no counterpart in the copy under \<^verbatim>\<open>include/\<close>.
\<close>

theorem shim_copies_equal:
  "le_readline_inc = le_readline
   \<and> le_add_history_inc = le_add_history
   \<and> le_read_history_inc = le_read_history
   \<and> le_write_history_inc = le_write_history
   \<and> le_clear_history_inc = le_clear_history
   \<and> le_initialize_inc = le_initialize
   \<and> le_generator_trampoline_inc = le_generator_trampoline
   \<and> attempted_completion_inc = attempted_completion
   \<and> le_set_completion_inc = le_set_completion"
proof -
  have a: "le_readline_inc = le_readline"
    by (intro ext) (simp add: le_readline_inc_def le_readline_def)
  have b: "le_add_history_inc = le_add_history"
    by (intro ext) (simp add: le_add_history_inc_def le_add_history_def)
  have c: "le_read_history_inc = le_read_history"
    by (intro ext) (simp add: le_read_history_inc_def le_read_history_def)
  have d: "le_write_history_inc = le_write_history"
    by (intro ext) (simp add: le_write_history_inc_def le_write_history_def)
  have e: "le_clear_history_inc = le_clear_history"
    by (intro ext) (simp add: le_clear_history_inc_def le_clear_history_def)
  have f: "le_initialize_inc = le_initialize"
    by (intro ext) (simp add: le_initialize_inc_def le_initialize_def)
  have tramp: "le_generator_trampoline_inc = le_generator_trampoline"
    by (intro ext) (simp add: le_generator_trampoline_inc_def le_generator_trampoline_def)
  have h: "attempted_completion_inc = attempted_completion"
    by (intro ext) (simp add: attempted_completion_inc_def attempted_completion_def tramp)
  have i: "le_set_completion_inc = le_set_completion"
    by (intro ext) (simp add: le_set_completion_inc_def le_set_completion_def)
  from a b c d e f tramp h i show ?thesis
    by simp
qed

end
